theory Spec2Isabelle
  imports Main "HOL-Library.AList"
begin

section \<open>The executors manager: data model\<close>

text \<open>
  A property read in JavaScript yields a value, \<open>null\<close> or \<open>undefined\<close>; a property
  that an object literal leaves out reads as \<open>undefined\<close>.
\<close>

datatype 'a js = Undefined | Null | Val 'a

text \<open>
  The fields of a sandbox module that \<open>getModulesToSend\<close> reads.
\<close>

record module =
  path :: "string js"
  code :: "string js"
  savedCode :: "string js"
  isBinary :: "bool js"

record sandbox =
  sandbox_id :: string
  template :: string
  modules :: "module list"

text \<open>
  The value stored under a path in \<open>IFiles\<close>: an object literal with the four
  properties \<open>code\<close>, \<open>savedCode\<close>, \<open>path\<close> and \<open>isBinary\<close>.
\<close>

record file_entry =
  file_code :: "string js"
  file_savedCode :: "string js"
  file_path :: "string js"
  file_isBinary :: "bool js"

text \<open>
  \<open>IFiles\<close> is a plain object used as a dictionary from path to entry. The model
  keeps its own properties, in the order in which JavaScript enumerates them.
\<close>

type_synonym IFiles = "(string \<times> file_entry) list"

datatype executor_class = ServerExecutor | SandboxExecutor

text \<open>
  An executor object: the class it was constructed from and its identity as a
  reference.
\<close>

datatype executor = Executor (class_of: executor_class) (ref_of: nat)

record init_options =
  sandboxId :: string
  files :: IFiles
  host :: string

text \<open>
  The operations the manager performs on the executors package: the constructor
  call and the four methods of \<open>IExecutor\<close>. Each one either completes or throws
  (an asynchronous one resolves or rejects).
\<close>

datatype backend_call =
    New executor
  | Dispose executor
  | Initialize executor init_options
  | Setup executor
  | UpdateFiles executor IFiles

datatype outcome = Resolved | Rejected string

type_synonym history = "(backend_call \<times> outcome) list"

datatype error = TypeError | Thrown string

record template_definition =
  def_isServer :: bool

text \<open>
  What the manager imports and does not define: the template registry, the
  generator of the default \<open>package.json\<close>, the environment flag, and the behaviour of
  the executors, which may depend on everything that happened before.
\<close>

record env =
  getDefinition :: "string \<Rightarrow> template_definition"
  generateFileFromSandbox :: "sandbox \<Rightarrow> string"
  STAGING_API :: "string option"
  backend :: "history \<Rightarrow> backend_call \<Rightarrow> outcome"

text \<open>
  The state: the manager's \<open>executor\<close> field (\<open>None\<close> is \<open>undefined\<close>), the calls
  made on the executors so far with their outcomes, and the next unused object
  identity.
\<close>

record manager =
  executor :: "executor option"
  calls :: history
  next_ref :: nat

section \<open>getExecutorType and getModulesToSend\<close>

definition getExecutorType :: "bool \<Rightarrow> executor_class" where
  "getExecutorType isServer = (if isServer then ServerExecutor else SandboxExecutor)"

definition instanceof :: "executor \<Rightarrow> executor_class \<Rightarrow> bool" where
  "instanceof e c = (class_of e = c)"

subsection \<open>Assignment to a property of a plain object\<close>

text \<open>
  A key is an array index when it is the canonical decimal form of a number below
  \<open>2\<^sup>3\<^sup>2 - 1\<close>: digits only, no leading zero.
\<close>

definition digit_chars :: string where
  "digit_chars = ''0123456789''"

definition digits_value :: "string \<Rightarrow> int" where
  "digits_value s = fold (\<lambda>c n. 10 * n + (of_char c - 48)) s 0"

definition array_index :: "string \<Rightarrow> int option" where
  "array_index s =
     (if s \<noteq> [] \<and> list_all (\<lambda>c. c \<in> set digit_chars) s \<and>
         (s = ''0'' \<or> hd s \<noteq> CHR ''0'') \<and> digits_value s < 2 ^ 32 - 1
      then Some (digits_value s) else None)"

text \<open>
  A new array-index key goes among the array-index keys, in ascending numeric
  order; these come before all other keys.
\<close>

fun insert_index :: "int \<Rightarrow> string \<Rightarrow> 'v \<Rightarrow> (string \<times> 'v) list \<Rightarrow> (string \<times> 'v) list" where
  "insert_index n k v [] = [(k, v)]"
| "insert_index n k v ((k', v') # obj) =
     (case array_index k' of
        Some n' \<Rightarrow>
          if n' < n then (k', v') # insert_index n k v obj else (k, v) # (k', v') # obj
      | None \<Rightarrow> (k, v) # (k', v') # obj)"

text \<open>
  \<open>obj[k] = v\<close> for an object created by \<open>{}\<close> and a value \<open>v\<close> that is an object.
  The key \<open>__proto__\<close> names the accessor inherited from \<open>Object.prototype\<close>: the
  assignment calls its setter, which makes \<open>v\<close> the prototype of \<open>obj\<close> and creates no
  own property. Any other key becomes an own property: an existing one keeps its
  place and takes the new value, a new array index is put in numeric order, any other
  new key is appended.
\<close>

definition assign_property :: "string \<Rightarrow> 'v \<Rightarrow> (string \<times> 'v) list \<Rightarrow> (string \<times> 'v) list" where
  "assign_property k v obj =
     (if k = ''__proto__'' then obj
      else if map_of obj k \<noteq> None then AList.update k v obj
      else case array_index k of
             Some n \<Rightarrow> insert_index n k v obj
           | None \<Rightarrow> obj @ [(k, v)])"

subsection \<open>getModulesToSend\<close>

text \<open>
  The body of the \<open>forEach\<close> callback: a module whose path is truthy (a non-empty
  string) is assigned under its path.
\<close>

definition add_module :: "module \<Rightarrow> IFiles \<Rightarrow> IFiles" where
  "add_module m modulesObject =
     (case path m of
        Val p \<Rightarrow>
          if p \<noteq> [] then
            assign_property p
              \<lparr>file_code = code m, file_savedCode = savedCode m,
               file_path = Val p, file_isBinary = isBinary m\<rparr> modulesObject
          else modulesObject
      | _ \<Rightarrow> modulesObject)"

definition package_json :: "(sandbox \<Rightarrow> string) \<Rightarrow> sandbox \<Rightarrow> file_entry" where
  "package_json gen sb =
     \<lparr>file_code = Val (gen sb), file_savedCode = Null,
      file_path = Val ''/package.json'', file_isBinary = Val False\<rparr>"

text \<open>
  The read \<open>modulesObject['/package.json']\<close> finds an own property or nothing: a
  prototype installed through \<open>__proto__\<close> is an entry, whose properties are \<open>code\<close>,
  \<open>savedCode\<close>, \<open>path\<close> and \<open>isBinary\<close>, and \<open>Object.prototype\<close> has no property of
  that name. An entry is an object and so truthy.
\<close>

definition getModulesToSend :: "(sandbox \<Rightarrow> string) \<Rightarrow> sandbox \<Rightarrow> IFiles" where
  "getModulesToSend gen sb =
     (let modulesObject = fold add_module (modules sb) []
      in if map_of modulesObject ''/package.json'' = None
         then assign_property ''/package.json'' (package_json gen sb) modulesObject
         else modulesObject)"

section \<open>The manager\<close>

text \<open>
  The operations are modelled one call at a time: every \<open>await\<close> has completed when
  the next statement runs, a rejection ends the operation where it occurs, and calls
  of the manager do not overlap.
\<close>

text \<open>
  One call on the executors package: its outcome is the backend's, and the call is
  recorded with it.
\<close>

definition perform :: "env \<Rightarrow> backend_call \<Rightarrow> manager \<Rightarrow> outcome \<times> manager" where
  "perform env c st =
     (let out = backend env (calls st) c
      in (out, st\<lparr>calls := calls st @ [(c, out)]\<rparr>))"

text \<open>
  A method call \<open>target.method(...)\<close>: on \<open>undefined\<close> the property access throws a
  \<open>TypeError\<close> and nothing is called; otherwise the call is made and a rejection is
  thrown on to the caller.
\<close>

definition invoke ::
  "env \<Rightarrow> executor option \<Rightarrow> (executor \<Rightarrow> backend_call) \<Rightarrow> manager \<Rightarrow> (error + unit) \<times> manager" where
  "invoke env target method st =
     (case target of
        None \<Rightarrow> (Inl TypeError, st)
      | Some e \<Rightarrow>
          (case perform env (method e) st of
             (Rejected x, st1) \<Rightarrow> (Inl (Thrown x), st1)
           | (Resolved, st1) \<Rightarrow> (Inr (), st1)))"

text \<open>
  \<open>new ExecutorType()\<close>: a fresh object of the class.
\<close>

definition construct :: "env \<Rightarrow> executor_class \<Rightarrow> manager \<Rightarrow> (error + executor) \<times> manager" where
  "construct env ExecutorType st =
     (let e = Executor ExecutorType (next_ref st)
      in case perform env (New e) (st\<lparr>next_ref := Suc (next_ref st)\<rparr>) of
           (Rejected x, st1) \<Rightarrow> (Inl (Thrown x), st1)
         | (Resolved, st1) \<Rightarrow> (Inr e, st1))"

definition truthy :: "string option \<Rightarrow> bool" where
  "truthy v = (case v of None \<Rightarrow> False | Some s \<Rightarrow> s \<noteq> [])"

definition getExecutor :: "manager \<Rightarrow> executor option" where
  "getExecutor st = executor st"

definition initializeExecutor ::
  "env \<Rightarrow> sandbox \<Rightarrow> manager \<Rightarrow> (error + executor option) \<times> manager" where
  "initializeExecutor env sb st =
     (let isServer = def_isServer (getDefinition env (template sb));
          ExecutorType = getExecutorType isServer
      in
      case (case executor st of
              Some e \<Rightarrow>
                if \<not> instanceof e ExecutorType then
                  (case invoke env (executor st) Dispose st of
                     (Inl err, st1) \<Rightarrow> (Inl err, st1)
                   | (Inr _, st1) \<Rightarrow> (Inr (), st1\<lparr>executor := None\<rparr>))
                else (Inr (), st)
            | None \<Rightarrow> (Inr (), st)) of
        (Inl err, st1) \<Rightarrow> (Inl err, st1)
      | (Inr _, st1) \<Rightarrow>
          (case (case executor st1 of
                   None \<Rightarrow>
                     (case construct env ExecutorType st1 of
                        (Inl err, st2) \<Rightarrow> (Inl err, st2)
                      | (Inr e, st2) \<Rightarrow> (Inr (), st2\<lparr>executor := Some e\<rparr>))
                 | Some _ \<Rightarrow> (Inr (), st1)) of
             (Inl err, st2) \<Rightarrow> (Inl err, st2)
           | (Inr _, st2) \<Rightarrow>
               (let sseHost =
                      (if truthy (STAGING_API env) then ''https://codesandbox.stream''
                       else ''https://codesandbox.io'')
                in case invoke env (executor st2)
                          (\<lambda>e. Initialize e
                             \<lparr>sandboxId = sandbox_id sb,
                              files = getModulesToSend (generateFileFromSandbox env) sb,
                              host = sseHost\<rparr>) st2 of
                     (Inl err, st3) \<Rightarrow> (Inl err, st3)
                   | (Inr _, st3) \<Rightarrow> (Inr (executor st3), st3))))"

definition setupExecutor :: "env \<Rightarrow> manager \<Rightarrow> (error + unit) \<times> manager" where
  "setupExecutor env st = invoke env (getExecutor st) Setup st"

definition isServer :: "manager \<Rightarrow> bool" where
  "isServer st = (case executor st of None \<Rightarrow> False | Some e \<Rightarrow> instanceof e ServerExecutor)"

definition updateFiles :: "env \<Rightarrow> sandbox \<Rightarrow> manager \<Rightarrow> (error + unit) \<times> manager" where
  "updateFiles env sb st =
     (let modules = getModulesToSend (generateFileFromSandbox env) sb
      in invoke env (executor st) (\<lambda>e. UpdateFiles e modules) st)"

definition closeExecutor :: "env \<Rightarrow> manager \<Rightarrow> (error + unit) \<times> manager" where
  "closeExecutor env st =
     (case invoke env (executor st) Dispose st of
        (Inl err, st1) \<Rightarrow> (Inl err, st1)
      | (Inr _, st1) \<Rightarrow> (Inr (), st1\<lparr>executor := None\<rparr>))"

text \<open>
  \<open>new ExecutorsManager()\<close>: no executor yet.
\<close>

definition executorsManager :: manager where
  "executorsManager = \<lparr>executor = None, calls = [], next_ref = 0\<rparr>"

subsection \<open>Reading the record of calls\<close>

text \<open>
  The executors on which \<open>dispose\<close> was called and the executors constructed, in
  order, and the calls one state has more than an earlier one.
\<close>

definition disposed :: "history \<Rightarrow> executor list" where
  "disposed h = concat (map (\<lambda>(c, out). case c of Dispose e \<Rightarrow> [e] | _ \<Rightarrow> []) h)"

definition constructed :: "history \<Rightarrow> executor list" where
  "constructed h = concat (map (\<lambda>(c, out). case c of New e \<Rightarrow> [e] | _ \<Rightarrow> []) h)"

definition calls_since :: "manager \<Rightarrow> manager \<Rightarrow> history" where
  "calls_since st st' = drop (length (calls st)) (calls st')"

text \<open>
  The kind a sandbox requires is the \<open>isServer\<close> flag of its template's definition.
\<close>

abbreviation wants_server :: "env \<Rightarrow> sandbox \<Rightarrow> bool" where
  "wants_server env sb \<equiv> def_isServer (getDefinition env (template sb))"

definition required_class :: "env \<Rightarrow> sandbox \<Rightarrow> executor_class" where
  "required_class env sb = getExecutorType (def_isServer (getDefinition env (template sb)))"

definition init_options_of :: "env \<Rightarrow> sandbox \<Rightarrow> init_options" where
  "init_options_of env sb =
     \<lparr>sandboxId = sandbox_id sb,
      files = getModulesToSend (generateFileFromSandbox env) sb,
      host = (if truthy (STAGING_API env) then ''https://codesandbox.stream''
              else ''https://codesandbox.io'')\<rparr>"

subsection \<open>The snapshot as the specification words it\<close>


definition entry_of :: "module \<Rightarrow> file_entry" where
  "entry_of m =
     \<lparr>file_code = code m, file_savedCode = savedCode m,
      file_path = path m, file_isBinary = isBinary m\<rparr>"


subsection \<open>Example inputs\<close>

definition a_js :: module where
  "a_js = \<lparr>path = Val ''/a.js'', code = Val ''x'', savedCode = Undefined, isBinary = Undefined\<rparr>"

definition sandbox_a :: sandbox where
  "sandbox_a = \<lparr>sandbox_id = ''s1'', template = ''create-react-app'', modules = [a_js]\<rparr>"

definition gen0 :: "sandbox \<Rightarrow> string" where
  "gen0 sb = ''{}''"



definition sandbox_node :: sandbox where
  "sandbox_node = \<lparr>sandbox_id = ''s2'', template = ''node'', modules = []\<rparr>"

definition registry0 :: "string \<Rightarrow> template_definition" where
  "registry0 t = \<lparr>def_isServer = (t = ''node'')\<rparr>"

text \<open>
  An environment in which every call on an executor succeeds, and one in which
  \<open>dispose\<close> rejects.
\<close>

definition env_ok :: env where
  "env_ok = \<lparr>getDefinition = registry0, generateFileFromSandbox = gen0,
             STAGING_API = None, backend = (\<lambda>h c. Resolved)\<rparr>"

definition env_dispose_fails :: env where
  "env_dispose_fails =
     \<lparr>getDefinition = registry0, generateFileFromSandbox = gen0, STAGING_API = None,
      backend = (\<lambda>h c. case c of Dispose e \<Rightarrow> Rejected ''dispose failed'' | _ \<Rightarrow> Resolved)\<rparr>"

text \<open>
  The manager after it has initialised the browser sandbox, with either environment.
\<close>

definition manager_a :: manager where
  "manager_a =
     \<lparr>executor = Some (Executor SandboxExecutor 0),
      calls = [(New (Executor SandboxExecutor 0), Resolved),
               (Initialize (Executor SandboxExecutor 0) (init_options_of env_ok sandbox_a),
                Resolved)],
      next_ref = 1\<rparr>"

text \<open>
  The manager after it has then been asked for the server sandbox and \<open>dispose\<close>
  rejected.
\<close>

definition manager_failed :: manager where
  "manager_failed =
     manager_a\<lparr>calls := calls manager_a @
       [(Dispose (Executor SandboxExecutor 0), Rejected ''dispose failed'')]\<rparr>"

text \<open>
  The manager after it has then initialised the server sandbox.
\<close>

definition manager_node :: manager where
  "manager_node =
     \<lparr>executor = Some (Executor ServerExecutor 1),
      calls = calls manager_a @
        [(Dispose (Executor SandboxExecutor 0), Resolved),
         (New (Executor ServerExecutor 1), Resolved),
         (Initialize (Executor ServerExecutor 1) (init_options_of env_ok sandbox_node),
          Resolved)],
      next_ref = 2\<rparr>"

subsection \<open>Sequences of calls\<close>

text \<open>
  A caller that initialises one sandbox after the other and stops at the first
  failure, and the number of places in a list where neighbours differ.
\<close>

fun initializeAll :: "env \<Rightarrow> sandbox list \<Rightarrow> manager \<Rightarrow> (error + unit) \<times> manager" where
  "initializeAll env [] st = (Inr (), st)"
| "initializeAll env (sb # sbs) st =
     (case initializeExecutor env sb st of
        (Inl err, st1) \<Rightarrow> (Inl err, st1)
      | (Inr _, st1) \<Rightarrow> initializeAll env sbs st1)"

fun changes :: "'a list \<Rightarrow> nat" where
  "changes (x # y # xs) = (if x \<noteq> y then 1 else 0) + changes (y # xs)"
| "changes _ = 0"

subsection \<open>The states the manager can be in\<close>

text \<open>
  The states that calls of the five operations lead to from the new manager,
  whatever their arguments and outcomes.
\<close>

inductive reachable :: "env \<Rightarrow> manager \<Rightarrow> bool" for env :: env where
  start: "reachable env executorsManager"
| initialized: "reachable env st \<Longrightarrow> reachable env (snd (initializeExecutor env sb st))"
| set_up: "reachable env st \<Longrightarrow> reachable env (snd (setupExecutor env st))"
| updated: "reachable env st \<Longrightarrow> reachable env (snd (updateFiles env sb st))"
| closed: "reachable env st \<Longrightarrow> reachable env (snd (closeExecutor env st))"

section \<open>Properties of the snapshot\<close>

lemma set_insert_index: "set (insert_index n k v obj) = insert (k, v) (set obj)"
  by (induction obj) (auto split: option.splits if_splits)

lemma map_of_insert_index:
  "map_of obj k = None \<Longrightarrow>
   map_of (insert_index n k v obj) q = (if q = k then Some v else map_of obj q)"
  by (induction obj) (auto split: option.splits if_splits)


lemma map_of_assign_property:
  "map_of (assign_property k v obj) q =
     (if k \<noteq> ''__proto__'' \<and> q = k then Some v else map_of obj q)"
  by (auto simp: assign_property_def update_conv' map_of_insert_index map_add_def
        split: option.splits)


lemma set_assign_property_subset:
  "set (assign_property k v obj) \<subseteq> insert (k, v) (set obj)"
proof -
  have "set (AList.update k v obj) \<subseteq> insert (k, v) (set obj)"
    by (induction obj) auto
  then show ?thesis
    by (auto simp: assign_property_def set_insert_index split: option.splits)
qed

lemma array_index_examples:
  "array_index ''/a.js'' = None"
  "array_index ''/package.json'' = None"
  by (simp_all add: array_index_def digit_chars_def)

lemma map_of_add_module:
  "map_of (add_module m acc) p =
     (if p \<noteq> [] \<and> p \<noteq> ''__proto__'' \<and> path m = Val p then Some (entry_of m)
      else map_of acc p)"
  by (cases "path m") (auto simp: add_module_def entry_of_def map_of_assign_property)



lemma map_of_fold_add_module_proto:
  "map_of (fold add_module ms acc) ''__proto__'' = map_of acc ''__proto__''"
  by (induction ms arbitrary: acc) (simp_all add: map_of_add_module)


lemma path_add_module:
  "\<forall>(k, f) \<in> set acc. file_path f = Val k \<Longrightarrow>
   \<forall>(k, f) \<in> set (add_module m acc). file_path f = Val k"
  by (cases "path m")
     (auto simp: add_module_def dest!: set_mp [OF set_assign_property_subset])

lemma path_fold_add_module:
  "\<forall>(k, f) \<in> set acc. file_path f = Val k \<Longrightarrow>
   \<forall>(k, f) \<in> set (fold add_module ms acc). file_path f = Val k"
proof (induction ms arbitrary: acc)
  case Nil
  then show ?case by simp
next
  case (Cons m ms)
  from Cons.IH [OF path_add_module [OF Cons.prems]] show ?case by simp
qed

lemma getModulesToSend_sandbox_a:
  "getModulesToSend gen0 sandbox_a =
     [(''/a.js'', entry_of a_js), (''/package.json'', package_json gen0 sandbox_a)]"
  by (simp add: getModulesToSend_def add_module_def assign_property_def array_index_examples
        sandbox_a_def a_js_def entry_of_def)




text \<open>
  C7, as the specification states it, gives the entry of \<open>/a.js\<close> the three
  properties \<open>code\<close>, \<open>savedCode\<close> and \<open>isBinary\<close>, so that its \<open>path\<close> reads as
  \<open>undefined\<close>. The entry that \<open>getModulesToSend\<close> stores differs from that object.
\<close>

theorem getModulesToSend_example_counterexample:
  "map_of (getModulesToSend gen0 sandbox_a) ''/a.js'' \<noteq>
     Some \<lparr>file_code = Val ''x'', file_savedCode = Undefined,
           file_path = Undefined, file_isBinary = Undefined\<rparr>"
  by (simp add: getModulesToSend_sandbox_a entry_of_def a_js_def)

text \<open>
  C7, amended: for a sandbox whose modules are exactly
  \<open>[{path: "/a.js", code: "x"}]\<close> the snapshot is the entry
  \<open>{code: "x", savedCode: undefined, path: "/a.js", isBinary: undefined}\<close> under
  \<open>/a.js\<close>, followed by the synthesised entry
  \<open>{code: <generated>, savedCode: null, path: "/package.json", isBinary: false}\<close>
  under \<open>/package.json\<close>, and nothing else.
\<close>

theorem getModulesToSend_example:
  "getModulesToSend gen \<lparr>sandbox_id = i, template = t, modules = [a_js]\<rparr> =
     [(''/a.js'',
       \<lparr>file_code = Val ''x'', file_savedCode = Undefined,
        file_path = Val ''/a.js'', file_isBinary = Undefined\<rparr>),
      (''/package.json'',
       \<lparr>file_code = Val (gen \<lparr>sandbox_id = i, template = t, modules = [a_js]\<rparr>),
        file_savedCode = Null,
        file_path = Val ''/package.json'', file_isBinary = Val False\<rparr>)]"
  by (simp add: getModulesToSend_def add_module_def assign_property_def array_index_examples
        a_js_def package_json_def)

text \<open>
  C10: every entry of a snapshot carries a \<open>path\<close> property equal to the key it is
  stored under, the synthesised \<open>/package.json\<close> entry included.
\<close>

theorem getModulesToSend_path_is_key:
  "(k, f) \<in> set (getModulesToSend gen sb) \<Longrightarrow> file_path f = Val k"
proof -
  assume mem: "(k, f) \<in> set (getModulesToSend gen sb)"
  have base: "\<forall>(k, f) \<in> set (fold add_module (modules sb) []). file_path f = Val k"
    by (rule path_fold_add_module) simp
  show "file_path f = Val k"
  proof (cases "map_of (fold add_module (modules sb) []) ''/package.json'' = None")
    case True
    with mem have "(k, f) \<in> insert (''/package.json'', package_json gen sb)
                     (set (fold add_module (modules sb) []))"
      using set_assign_property_subset by (fastforce simp: getModulesToSend_def Let_def)
    with base show ?thesis by (auto simp: package_json_def)
  next
    case False
    with mem base show ?thesis by (auto simp: getModulesToSend_def Let_def)
  qed
qed

theorem getModulesToSend_path_is_key_witness:
  "(''/package.json'', package_json gen0 sandbox_a) \<in> set (getModulesToSend gen0 sandbox_a) \<and>
   file_path (package_json gen0 sandbox_a) = Val ''/package.json''"
proof -
  have mem: "(''/package.json'', package_json gen0 sandbox_a)
               \<in> set (getModulesToSend gen0 sandbox_a)"
    by (simp add: getModulesToSend_sandbox_a)
  from mem getModulesToSend_path_is_key [OF mem] show ?thesis by simp
qed

section \<open>Properties of the manager\<close>

lemma initializeExecutor_reuse:
  assumes "executor st = Some e" and "class_of e = required_class env sb"
  shows "initializeExecutor env sb st =
     (case backend env (calls st) (Initialize e (init_options_of env sb)) of
        Resolved \<Rightarrow>
          (Inr (Some e),
           st\<lparr>calls := calls st @ [(Initialize e (init_options_of env sb), Resolved)]\<rparr>)
      | Rejected x \<Rightarrow>
          (Inl (Thrown x),
           st\<lparr>calls := calls st @ [(Initialize e (init_options_of env sb), Rejected x)]\<rparr>))"
  using assms
  by (simp add: initializeExecutor_def required_class_def init_options_of_def instanceof_def
        invoke_def perform_def Let_def split: outcome.split)

lemma initializeExecutor_fresh:
  assumes "executor st = None"
  shows "initializeExecutor env sb st =
     (let e = Executor (required_class env sb) (next_ref st);
          opts = init_options_of env sb
      in case backend env (calls st) (New e) of
           Rejected x \<Rightarrow>
             (Inl (Thrown x),
              st\<lparr>calls := calls st @ [(New e, Rejected x)], next_ref := Suc (next_ref st)\<rparr>)
         | Resolved \<Rightarrow>
             (case backend env (calls st @ [(New e, Resolved)]) (Initialize e opts) of
                Rejected x \<Rightarrow>
                  (Inl (Thrown x),
                   st\<lparr>executor := Some e,
                      calls := calls st @ [(New e, Resolved), (Initialize e opts, Rejected x)],
                      next_ref := Suc (next_ref st)\<rparr>)
              | Resolved \<Rightarrow>
                  (Inr (Some e),
                   st\<lparr>executor := Some e,
                      calls := calls st @ [(New e, Resolved), (Initialize e opts, Resolved)],
                      next_ref := Suc (next_ref st)\<rparr>)))"
  using assms
  by (simp add: initializeExecutor_def required_class_def init_options_of_def construct_def
        invoke_def perform_def Let_def split: outcome.split)

lemma initializeExecutor_switch:
  assumes "executor st = Some e" and "class_of e \<noteq> required_class env sb"
  shows "initializeExecutor env sb st =
     (case backend env (calls st) (Dispose e) of
        Rejected x \<Rightarrow> (Inl (Thrown x), st\<lparr>calls := calls st @ [(Dispose e, Rejected x)]\<rparr>)
      | Resolved \<Rightarrow>
          initializeExecutor env sb
            (st\<lparr>calls := calls st @ [(Dispose e, Resolved)], executor := None\<rparr>))"
  using assms
  by (simp add: initializeExecutor_def required_class_def instanceof_def
        invoke_def perform_def Let_def split: outcome.split)

lemma initializeExecutor_Inr:
  assumes "initializeExecutor env sb st = (Inr r, st')"
  shows "\<exists>e. r = Some e \<and> executor st' = Some e \<and> class_of e = required_class env sb"
proof (cases "executor st")
  case None
  with assms show ?thesis
    by (auto simp: initializeExecutor_fresh Let_def split: outcome.splits)
next
  case (Some e0)
  show ?thesis
  proof (cases "class_of e0 = required_class env sb")
    case True
    from assms have "r = Some e0 \<and> executor st' = Some e0"
      unfolding initializeExecutor_reuse [OF Some True]
      using Some by (auto split: outcome.splits)
    with True show ?thesis by simp
  next
    case False
    with Some assms show ?thesis
      by (auto simp: initializeExecutor_switch initializeExecutor_fresh Let_def
            split: outcome.splits)
  qed
qed

lemma initializeExecutor_env_ok_a:
  "initializeExecutor env_ok sandbox_a executorsManager =
     (Inr (Some (Executor SandboxExecutor 0)), manager_a)"
  by (simp add: initializeExecutor_fresh executorsManager_def manager_a_def Let_def
        required_class_def getExecutorType_def env_ok_def registry0_def sandbox_a_def)

lemma initializeExecutor_dispose_fails_a:
  "initializeExecutor env_dispose_fails sandbox_a executorsManager =
     (Inr (Some (Executor SandboxExecutor 0)), manager_a)"
  by (simp add: initializeExecutor_fresh executorsManager_def manager_a_def Let_def
        required_class_def getExecutorType_def env_ok_def env_dispose_fails_def
        init_options_of_def registry0_def sandbox_a_def)

lemma required_class_eq:
  "required_class env sb = (if wants_server env sb then ServerExecutor else SandboxExecutor)"
  by (simp add: required_class_def getExecutorType_def)

lemma wants_server_examples:
  "\<not> wants_server env_ok sandbox_a"
  "wants_server env_ok sandbox_node"
  "\<not> wants_server env_dispose_fails sandbox_a"
  "wants_server env_dispose_fails sandbox_node"
  by (simp_all add: env_ok_def env_dispose_fails_def registry0_def sandbox_a_def
        sandbox_node_def)

lemma required_class_examples:
  "required_class env_ok sandbox_a = SandboxExecutor"
  "required_class env_ok sandbox_node = ServerExecutor"
  "required_class env_dispose_fails sandbox_a = SandboxExecutor"
  "required_class env_dispose_fails sandbox_node = ServerExecutor"
  by (simp_all add: required_class_eq wants_server_examples)

lemma initializeExecutor_env_ok_node:
  "initializeExecutor env_ok sandbox_node manager_a =
     (Inr (Some (Executor ServerExecutor 1)), manager_node)"
proof -
  have held: "executor manager_a = Some (Executor SandboxExecutor 0)"
    by (simp add: manager_a_def)
  have other: "class_of (Executor SandboxExecutor 0) \<noteq> required_class env_ok sandbox_node"
    by (simp add: required_class_examples)
  have ok: "backend env_ok = (\<lambda>h c. Resolved)"
    by (simp add: env_ok_def)
  show ?thesis
    unfolding initializeExecutor_switch [OF held other]
    by (simp add: ok initializeExecutor_fresh Let_def required_class_examples manager_a_def
          manager_node_def)
qed

text \<open>
  C1: after a successful \<open>initializeExecutor\<close> for a sandbox, the manager holds an
  executor, it is the reference that the call returned, and it is a \<open>ServerExecutor\<close>
  exactly when the sandbox's template is a server template and a \<open>SandboxExecutor\<close>
  exactly when it is not: an instance of the class selected for the kind.
\<close>

theorem initializeExecutor_active:
  assumes "initializeExecutor env sb st = (Inr r, st')"
  shows "\<exists>e. getExecutor st' = Some e \<and> r = Some e \<and>
             (class_of e = ServerExecutor \<longleftrightarrow> wants_server env sb) \<and>
             (class_of e = SandboxExecutor \<longleftrightarrow> \<not> wants_server env sb) \<and>
             instanceof e (getExecutorType (wants_server env sb))"
  using initializeExecutor_Inr [OF assms]
  by (auto simp: getExecutor_def instanceof_def required_class_eq getExecutorType_def
        split: if_splits)

theorem initializeExecutor_active_witness:
  "getExecutor manager_a = Some (Executor SandboxExecutor 0) \<and>
   wants_server env_ok sandbox_node \<and>
   initializeExecutor env_ok sandbox_node manager_a =
     (Inr (Some (Executor ServerExecutor 1)), manager_node) \<and>
   getExecutor manager_node = Some (Executor ServerExecutor 1) \<and>
   class_of (Executor ServerExecutor 1) = ServerExecutor \<and>
   \<not> wants_server env_ok sandbox_a \<and>
   initializeExecutor env_ok sandbox_a executorsManager =
     (Inr (Some (Executor SandboxExecutor 0)), manager_a) \<and>
   class_of (Executor SandboxExecutor 0) = SandboxExecutor"
proof -
  from initializeExecutor_active [OF initializeExecutor_env_ok_node]
  have "getExecutor manager_node = Some (Executor ServerExecutor 1) \<and>
        (class_of (Executor ServerExecutor 1) = ServerExecutor \<longleftrightarrow>
           wants_server env_ok sandbox_node)"
    by auto
  moreover from initializeExecutor_active [OF initializeExecutor_env_ok_a]
  have "getExecutor manager_a = Some (Executor SandboxExecutor 0) \<and>
        (class_of (Executor SandboxExecutor 0) = SandboxExecutor \<longleftrightarrow>
           \<not> wants_server env_ok sandbox_a)"
    by auto
  ultimately show ?thesis
    using initializeExecutor_env_ok_node initializeExecutor_env_ok_a
    by (simp add: wants_server_examples)
qed

lemma calls_since_append: "calls st' = calls st @ h \<Longrightarrow> calls_since st st' = h"
  by (simp add: calls_since_def)

lemma initializeExecutor_same_class:
  assumes held: "executor st = Some e" and same: "class_of e = required_class env sb"
      and run: "initializeExecutor env sb st = (res, st')"
  shows "executor st' = Some e \<and>
         (\<exists>out. calls st' = calls st @ [(Initialize e (init_options_of env sb), out)])"
  using run held unfolding initializeExecutor_reuse [OF held same]
  by (auto split: outcome.splits)

lemma initializeExecutor_other_class:
  assumes held: "executor st = Some e" and other: "class_of e \<noteq> required_class env sb"
      and run: "initializeExecutor env sb st = (res, st')"
  shows "(\<exists>x. res = Inl (Thrown x) \<and> executor st' = Some e \<and>
              calls st' = calls st @ [(Dispose e, Rejected x)]) \<or>
         (\<exists>x e'. res = Inl (Thrown x) \<and> executor st' = None \<and>
              calls st' = calls st @ [(Dispose e, Resolved), (New e', Rejected x)]) \<or>
         (\<exists>e' out. class_of e' = required_class env sb \<and> executor st' = Some e' \<and>
              res = (case out of Resolved \<Rightarrow> Inr (Some e') | Rejected x \<Rightarrow> Inl (Thrown x)) \<and>
              calls st' = calls st @
                [(Dispose e, Resolved), (New e', Resolved),
                 (Initialize e' (init_options_of env sb), out)])"
proof (cases "backend env (calls st) (Dispose e)")
  case (Rejected x)
  with run held show ?thesis
    unfolding initializeExecutor_switch [OF held other] by auto
next
  case Resolved
  let ?st = "st\<lparr>calls := calls st @ [(Dispose e, Resolved)], executor := None\<rparr>"
  have none: "executor ?st = None" by simp
  from run Resolved have "initializeExecutor env sb ?st = (res, st')"
    unfolding initializeExecutor_switch [OF held other] by simp
  then show ?thesis
    unfolding initializeExecutor_fresh [OF none]
    by (auto simp: Let_def split: outcome.splits)
qed

lemma initializeExecutor_succeeds:
  assumes ok: "\<And>h c. backend env h c = Resolved"
  shows "\<exists>e st'. initializeExecutor env sb st = (Inr (Some e), st')"
proof (cases "executor st")
  case None
  then show ?thesis
    by (simp add: initializeExecutor_fresh ok Let_def)
next
  case (Some e0)
  show ?thesis
  proof (cases "class_of e0 = required_class env sb")
    case True
    with Some show ?thesis
      by (simp add: initializeExecutor_reuse ok)
  next
    case False
    with Some show ?thesis
      by (simp add: initializeExecutor_switch initializeExecutor_fresh ok Let_def)
  qed
qed

lemma disposed_simps:
  "disposed [] = []"
  "disposed ((c, out) # h) = (case c of Dispose e \<Rightarrow> [e] | _ \<Rightarrow> []) @ disposed h"
  "disposed (h @ h') = disposed h @ disposed h'"
  by (simp_all add: disposed_def)

lemma initializeExecutor_Inr_disposals:
  assumes held: "executor st = Some e"
      and run: "initializeExecutor env sb st = (Inr r, st')"
  shows "length (disposed (calls st')) =
           length (disposed (calls st)) + (if class_of e \<noteq> required_class env sb then 1 else 0)"
proof (cases "class_of e = required_class env sb")
  case True
  from initializeExecutor_same_class [OF held True run] obtain out where
    "calls st' = calls st @ [(Initialize e (init_options_of env sb), out)]"
    by blast
  with True show ?thesis by (simp add: disposed_simps)
next
  case False
  from initializeExecutor_other_class [OF held False run] obtain e' out where
    "calls st' = calls st @
       [(Dispose e, Resolved), (New e', Resolved),
        (Initialize e' (init_options_of env sb), out)]"
    by auto
  with False show ?thesis by (simp add: disposed_simps)
qed

lemma initializeAll_disposals_held:
  assumes "executor st = Some e"
      and "initializeAll env sbs st = (Inr u, st')"
  shows "length (disposed (calls st')) =
           length (disposed (calls st)) + changes (class_of e # map (required_class env) sbs)"
  using assms
proof (induction sbs arbitrary: st e)
  case Nil
  then show ?case by simp
next
  case (Cons sb sbs)
  from Cons.prems(2) obtain r st1 where
    step: "initializeExecutor env sb st = (Inr r, st1)"
    and rest: "initializeAll env sbs st1 = (Inr u, st')"
    by (auto split: prod.splits sum.splits)
  from initializeExecutor_Inr [OF step] obtain e1 where
    held1: "executor st1 = Some e1" and cls1: "class_of e1 = required_class env sb"
    by blast
  from Cons.IH [OF held1 rest] initializeExecutor_Inr_disposals [OF Cons.prems(1) step] cls1
  show ?case by simp
qed

text \<open>
  Over a whole sequence of successful calls on a new manager, \<open>dispose\<close> is called
  as many times as the required class changes from one call to the next.
\<close>

lemma initializeAll_disposals:
  assumes "initializeAll env sbs executorsManager = (Inr u, st')"
  shows "length (disposed (calls st')) = changes (map (required_class env) sbs)"
proof (cases sbs)
  case Nil
  with assms have "calls st' = []"
    by (auto simp: executorsManager_def)
  with Nil show ?thesis by (simp add: disposed_simps)
next
  case (Cons sb rest)
  with assms obtain r st1 where
    step: "initializeExecutor env sb executorsManager = (Inr r, st1)"
    and more: "initializeAll env rest st1 = (Inr u, st')"
    by (auto split: prod.splits sum.splits)
  from initializeExecutor_Inr [OF step] obtain e1 where
    held1: "executor st1 = Some e1" and cls1: "class_of e1 = required_class env sb"
    by blast
  have "disposed (calls st1) = []"
    using step
    by (auto simp: initializeExecutor_fresh executorsManager_def Let_def disposed_simps
          split: outcome.splits)
  with initializeAll_disposals_held [OF held1 more] cls1 Cons show ?thesis
    by simp
qed

lemma initializeExecutor_dispose_fails_node:
  "initializeExecutor env_dispose_fails sandbox_node manager_a =
     (Inl (Thrown ''dispose failed''), manager_failed)"
proof -
  have held: "executor manager_a = Some (Executor SandboxExecutor 0)"
    by (simp add: manager_a_def)
  have other: "class_of (Executor SandboxExecutor 0) \<noteq>
                 required_class env_dispose_fails sandbox_node"
    by (simp add: required_class_examples)
  have rejects: "backend env_dispose_fails (calls manager_a)
                   (Dispose (Executor SandboxExecutor 0)) = Rejected ''dispose failed''"
    by (simp add: env_dispose_fails_def)
  show ?thesis
    unfolding initializeExecutor_switch [OF held other]
    by (simp add: rejects manager_failed_def)
qed

lemma initializeExecutor_dispose_fails_again:
  "initializeExecutor env_dispose_fails sandbox_node manager_failed =
     (Inl (Thrown ''dispose failed''),
      manager_failed\<lparr>calls := calls manager_failed @
        [(Dispose (Executor SandboxExecutor 0), Rejected ''dispose failed'')]\<rparr>)"
proof -
  have held: "executor manager_failed = Some (Executor SandboxExecutor 0)"
    by (simp add: manager_failed_def manager_a_def)
  have other: "class_of (Executor SandboxExecutor 0) \<noteq>
                 required_class env_dispose_fails sandbox_node"
    by (simp add: required_class_examples)
  have rejects: "backend env_dispose_fails (calls manager_failed)
                   (Dispose (Executor SandboxExecutor 0)) = Rejected ''dispose failed''"
    by (simp add: env_dispose_fails_def)
  show ?thesis
    unfolding initializeExecutor_switch [OF held other]
    by (simp add: rejects)
qed

lemma initializeExecutor_dispose_fails_back:
  "initializeExecutor env_dispose_fails sandbox_a manager_failed =
     (Inr (Some (Executor SandboxExecutor 0)),
      manager_failed\<lparr>calls := calls manager_failed @
        [(Initialize (Executor SandboxExecutor 0) (init_options_of env_dispose_fails sandbox_a),
          Resolved)]\<rparr>)"
proof -
  have held: "executor manager_failed = Some (Executor SandboxExecutor 0)"
    by (simp add: manager_failed_def manager_a_def)
  have same: "class_of (Executor SandboxExecutor 0) =
                required_class env_dispose_fails sandbox_a"
    by (simp add: required_class_examples)
  have resolves: "backend env_dispose_fails (calls manager_failed)
      (Initialize (Executor SandboxExecutor 0) (init_options_of env_dispose_fails sandbox_a)) =
      Resolved"
    by (simp add: env_dispose_fails_def)
  show ?thesis
    unfolding initializeExecutor_reuse [OF held same]
    by (simp add: resolves)
qed

text \<open>
  C2, as the specification states it, speaks of any sequence of calls. Take the new
  manager and a \<open>dispose\<close> that rejects: the browser sandbox is initialised, then the
  server sandbox is asked for and the call fails in \<open>dispose\<close>, so the manager keeps
  the browser executor. Asking for the server sandbox again, the required kind is
  unchanged from the call before, and \<open>dispose\<close> is called again. Asking for the
  browser sandbox instead, the required kind changes from the call before, and
  nothing is disposed.
\<close>

theorem initializeExecutor_consecutive_counterexample:
  "initializeExecutor env_dispose_fails sandbox_a executorsManager =
     (Inr (Some (Executor SandboxExecutor 0)), manager_a) \<and>
   initializeExecutor env_dispose_fails sandbox_node manager_a =
     (Inl (Thrown ''dispose failed''), manager_failed) \<and>
   wants_server env_dispose_fails sandbox_node \<and>
   disposed (calls_since manager_failed
      (snd (initializeExecutor env_dispose_fails sandbox_node manager_failed))) =
     [Executor SandboxExecutor 0] \<and>
   \<not> wants_server env_dispose_fails sandbox_a \<and>
   disposed (calls_since manager_failed
      (snd (initializeExecutor env_dispose_fails sandbox_a manager_failed))) = []"
  by (simp add: initializeExecutor_dispose_fails_a initializeExecutor_dispose_fails_node
        initializeExecutor_dispose_fails_again initializeExecutor_dispose_fails_back
        wants_server_examples calls_since_def disposed_simps)

text \<open>
  C2, amended: take two consecutive calls of \<open>initializeExecutor\<close> such that the
  first left the manager holding an executor of the kind it required, as every
  successful call does and every call that fails only in \<open>initialize\<close>. If the second
  sandbox requires the same kind, the second call disposes nothing, constructs nothing
  and keeps the same executor object. If it requires the other kind, the second call
  calls \<open>dispose\<close> exactly once, on that executor, before anything else; a construction
  happens only after that \<open>dispose\<close> has resolved; and when the second call succeeds,
  what it did is exactly: dispose the old executor, construct one of the new kind,
  initialise it.
\<close>

theorem initializeExecutor_consecutive:
  assumes first: "initializeExecutor env sb1 st0 = (res1, st1)"
      and held: "getExecutor st1 = Some e1"
      and kind: "class_of e1 = (if wants_server env sb1 then ServerExecutor else SandboxExecutor)"
      and second: "initializeExecutor env sb2 st1 = (res2, st2)"
  shows "calls st2 = calls st1 @ calls_since st1 st2 \<and>
    (wants_server env sb1 = wants_server env sb2 \<longrightarrow>
       getExecutor st2 = Some e1 \<and>
       disposed (calls_since st1 st2) = [] \<and> constructed (calls_since st1 st2) = []) \<and>
    (wants_server env sb1 \<noteq> wants_server env sb2 \<longrightarrow>
       disposed (calls_since st1 st2) = [e1] \<and>
       (\<exists>out rest. calls_since st1 st2 = (Dispose e1, out) # rest \<and>
          (constructed rest \<noteq> [] \<longrightarrow> out = Resolved)) \<and>
       (\<forall>r2. res2 = Inr r2 \<longrightarrow>
          (\<exists>e2. r2 = Some e2 \<and> getExecutor st2 = Some e2 \<and> e2 \<noteq> e1 \<and>
             class_of e2 = (if wants_server env sb2 then ServerExecutor else SandboxExecutor) \<and>
             calls_since st1 st2 =
               [(Dispose e1, Resolved), (New e2, Resolved),
                (Initialize e2 (init_options_of env sb2), Resolved)])))"
proof -
  from held have held': "executor st1 = Some e1"
    by (simp add: getExecutor_def)
  from kind have cls: "class_of e1 = required_class env sb1"
    by (simp add: required_class_eq)
  have kinds: "required_class env sb1 = required_class env sb2 \<longleftrightarrow>
                 wants_server env sb1 = wants_server env sb2"
    by (simp add: required_class_eq)
  show ?thesis
  proof (cases "required_class env sb1 = required_class env sb2")
    case True
    with cls have same: "class_of e1 = required_class env sb2" by simp
    from initializeExecutor_same_class [OF held' same second] obtain out where
      "executor st2 = Some e1"
      "calls st2 = calls st1 @ [(Initialize e1 (init_options_of env sb2), out)]"
      by blast
    with True kinds show ?thesis
      by (simp add: calls_since_def getExecutor_def disposed_def constructed_def)
  next
    case False
    with cls have other: "class_of e1 \<noteq> required_class env sb2" by simp
    from False kinds have changed: "wants_server env sb1 \<noteq> wants_server env sb2"
      by simp
    from initializeExecutor_other_class [OF held' other second]
    show ?thesis
    proof (elim disjE exE conjE)
      fix x
      assume "res2 = Inl (Thrown x)" "calls st2 = calls st1 @ [(Dispose e1, Rejected x)]"
      with changed show ?thesis
        by (simp add: calls_since_def disposed_def constructed_def)
    next
      fix x e'
      assume "res2 = Inl (Thrown x)"
        "calls st2 = calls st1 @ [(Dispose e1, Resolved), (New e', Rejected x)]"
      with changed show ?thesis
        by (simp add: calls_since_def disposed_def constructed_def)
    next
      fix e' out
      assume e': "class_of e' = required_class env sb2"
        and ex: "executor st2 = Some e'"
        and res: "res2 = (case out of Resolved \<Rightarrow> Inr (Some e') | Rejected x \<Rightarrow> Inl (Thrown x))"
        and cs: "calls st2 = calls st1 @
                [(Dispose e1, Resolved), (New e', Resolved),
                 (Initialize e' (init_options_of env sb2), out)]"
      from e' other have ne: "e' \<noteq> e1" by auto
      from e' have e'': "class_of e' =
          (if wants_server env sb2 then ServerExecutor else SandboxExecutor)"
        by (simp add: required_class_eq)
      from changed ne e'' ex res cs show ?thesis
        by (cases out)
           (simp_all add: calls_since_def disposed_def constructed_def getExecutor_def)
    qed
  qed
qed

theorem initializeExecutor_consecutive_witness:
  "initializeExecutor env_ok sandbox_a executorsManager =
     (Inr (Some (Executor SandboxExecutor 0)), manager_a) \<and>
   getExecutor manager_a = Some (Executor SandboxExecutor 0) \<and>
   \<not> wants_server env_ok sandbox_a \<and>
   getExecutor (snd (initializeExecutor env_ok sandbox_a manager_a)) =
     Some (Executor SandboxExecutor 0) \<and>
   disposed (calls_since manager_a (snd (initializeExecutor env_ok sandbox_a manager_a))) = [] \<and>
   wants_server env_ok sandbox_node \<and>
   calls_since manager_a (snd (initializeExecutor env_ok sandbox_node manager_a)) =
     [(Dispose (Executor SandboxExecutor 0), Resolved),
      (New (Executor ServerExecutor 1), Resolved),
      (Initialize (Executor ServerExecutor 1) (init_options_of env_ok sandbox_node), Resolved)]"
proof -
  have held: "getExecutor manager_a = Some (Executor SandboxExecutor 0)"
    by (simp add: getExecutor_def manager_a_def)
  have kind: "class_of (Executor SandboxExecutor 0) =
      (if wants_server env_ok sandbox_a then ServerExecutor else SandboxExecutor)"
    by (simp add: wants_server_examples)
  note same = initializeExecutor_consecutive
    [OF initializeExecutor_env_ok_a held kind
        surjective_pairing [of "initializeExecutor env_ok sandbox_a manager_a"]]
  note changed = initializeExecutor_consecutive
    [OF initializeExecutor_env_ok_a held kind
        surjective_pairing [of "initializeExecutor env_ok sandbox_node manager_a"]]
  have res: "fst (initializeExecutor env_ok sandbox_node manager_a) =
               Inr (Some (Executor ServerExecutor 1))"
    by (simp add: initializeExecutor_env_ok_node)
  from same have "getExecutor (snd (initializeExecutor env_ok sandbox_a manager_a)) =
      Some (Executor SandboxExecutor 0) \<and>
    disposed (calls_since manager_a (snd (initializeExecutor env_ok sandbox_a manager_a))) = []"
    by simp
  moreover from changed res
  have "calls_since manager_a (snd (initializeExecutor env_ok sandbox_node manager_a)) =
     [(Dispose (Executor SandboxExecutor 0), Resolved),
      (New (Executor ServerExecutor 1), Resolved),
      (Initialize (Executor ServerExecutor 1) (init_options_of env_ok sandbox_node), Resolved)]"
    by (auto simp: wants_server_examples)
  ultimately show ?thesis
    using initializeExecutor_env_ok_a held by (simp add: wants_server_examples)
qed

text \<open>
  C4, as the specification states it, leaves the manager without an executor when
  \<open>dispose\<close> throws during \<open>initializeExecutor\<close>. The manager that has initialised
  the browser sandbox and is then asked for the server sandbox, with a \<open>dispose\<close>
  that rejects, still holds the browser executor.
\<close>

theorem initializeExecutor_dispose_failure_counterexample:
  "initializeExecutor env_dispose_fails sandbox_a executorsManager =
     (Inr (Some (Executor SandboxExecutor 0)), manager_a) \<and>
   fst (initializeExecutor env_dispose_fails sandbox_node manager_a) =
     Inl (Thrown ''dispose failed'') \<and>
   getExecutor (snd (initializeExecutor env_dispose_fails sandbox_node manager_a)) =
     Some (Executor SandboxExecutor 0)"
proof -
  have held: "executor manager_a = Some (Executor SandboxExecutor 0)"
    by (simp add: manager_a_def)
  have other: "class_of (Executor SandboxExecutor 0) \<noteq>
                 required_class env_dispose_fails sandbox_node"
    by (simp add: required_class_examples)
  have rejects: "backend env_dispose_fails (calls manager_a)
                   (Dispose (Executor SandboxExecutor 0)) = Rejected ''dispose failed''"
    by (simp add: env_dispose_fails_def)
  have "initializeExecutor env_dispose_fails sandbox_node manager_a =
          (Inl (Thrown ''dispose failed''),
           manager_a\<lparr>calls := calls manager_a @
             [(Dispose (Executor SandboxExecutor 0), Rejected ''dispose failed'')]\<rparr>)"
    unfolding initializeExecutor_switch [OF held other] by (simp add: rejects)
  with held initializeExecutor_dispose_fails_a show ?thesis
    by (simp add: getExecutor_def)
qed

text \<open>
  C4, amended: if \<open>dispose\<close>, called because the class changed, throws, the failure
  propagates to the caller of \<open>initializeExecutor\<close> and the manager still holds the
  executor it held before: the reference is not cleared, and nothing is constructed
  or initialised.
\<close>

theorem initializeExecutor_dispose_failure:
  assumes "executor st = Some e"
      and "\<not> instanceof e (getExecutorType (def_isServer (getDefinition env (template sb))))"
      and "backend env (calls st) (Dispose e) = Rejected x"
  shows "initializeExecutor env sb st =
           (Inl (Thrown x), st\<lparr>calls := calls st @ [(Dispose e, Rejected x)]\<rparr>) \<and>
         getExecutor (snd (initializeExecutor env sb st)) = Some e"
proof -
  from assms(2) have other: "class_of e \<noteq> required_class env sb"
    by (simp add: instanceof_def required_class_def)
  show ?thesis
    unfolding initializeExecutor_switch [OF assms(1) other]
    using assms(1,3) by (simp add: getExecutor_def)
qed

theorem initializeExecutor_dispose_failure_witness:
  "executor manager_a = Some (Executor SandboxExecutor 0) \<and>
   backend env_dispose_fails (calls manager_a) (Dispose (Executor SandboxExecutor 0)) =
     Rejected ''dispose failed'' \<and>
   initializeExecutor env_dispose_fails sandbox_node manager_a =
     (Inl (Thrown ''dispose failed''),
      manager_a\<lparr>calls := calls manager_a @
        [(Dispose (Executor SandboxExecutor 0), Rejected ''dispose failed'')]\<rparr>)"
proof -
  have h1: "executor manager_a = Some (Executor SandboxExecutor 0)"
    by (simp add: manager_a_def)
  have h2: "\<not> instanceof (Executor SandboxExecutor 0)
              (getExecutorType (def_isServer (getDefinition env_dispose_fails
                 (template sandbox_node))))"
    by (simp add: instanceof_def getExecutorType_def env_dispose_fails_def registry0_def
          sandbox_node_def)
  have h3: "backend env_dispose_fails (calls manager_a) (Dispose (Executor SandboxExecutor 0)) =
              Rejected ''dispose failed''"
    by (simp add: env_dispose_fails_def)
  from initializeExecutor_dispose_failure [OF h1 h2 h3] h1 h3 show ?thesis by simp
qed

lemma invoke_state:
  assumes "invoke env target method st = (res, st')"
  shows "executor st' = executor st \<and> next_ref st' = next_ref st \<and>
         (target = None \<and> res = Inl TypeError \<and> st' = st \<or>
          (\<exists>e out. target = Some e \<and> calls st' = calls st @ [(method e, out)] \<and>
             res = (case out of Resolved \<Rightarrow> Inr () | Rejected x \<Rightarrow> Inl (Thrown x))))"
  using assms
  by (cases target)
     (auto simp: invoke_def perform_def Let_def split: outcome.splits)

lemma initializeExecutor_constructed:
  assumes inv: "\<And>e. executor st = Some e \<Longrightarrow> (New e, Resolved) \<in> set (calls st)"
      and after: "executor (snd (initializeExecutor env sb st)) = Some e"
  shows "(New e, Resolved) \<in> set (calls (snd (initializeExecutor env sb st)))"
proof (cases "executor st")
  case None
  with after show ?thesis
    by (auto simp: initializeExecutor_fresh Let_def split: outcome.splits)
next
  case (Some e0)
  note run = surjective_pairing [of "initializeExecutor env sb st"]
  show ?thesis
  proof (cases "class_of e0 = required_class env sb")
    case True
    from initializeExecutor_same_class [OF Some True run] after inv [OF Some]
    show ?thesis by auto
  next
    case False
    from initializeExecutor_other_class [OF Some False run] after inv [OF Some]
    show ?thesis by auto
  qed
qed

lemma reachable_constructed:
  "reachable env st \<Longrightarrow> executor st = Some e \<Longrightarrow> (New e, Resolved) \<in> set (calls st)"
proof (induction arbitrary: e rule: reachable.induct)
  case start
  then show ?case by (simp add: executorsManager_def)
next
  case (initialized st sb)
  from initialized.prems show ?case
    by (rule initializeExecutor_constructed [rotated]) (rule initialized.IH)
next
  case (set_up st)
  from invoke_state [OF surjective_pairing [of "invoke env (getExecutor st) Setup st"]]
    set_up.prems set_up.IH
  show ?case by (auto simp: setupExecutor_def)
next
  case (updated st sb)
  from invoke_state [OF surjective_pairing
      [of "invoke env (executor st)
             (\<lambda>e. UpdateFiles e (getModulesToSend (generateFileFromSandbox env) sb)) st"]]
    updated.prems updated.IH
  show ?case by (auto simp: updateFiles_def Let_def)
next
  case (closed st)
  from invoke_state [OF surjective_pairing [of "invoke env (executor st) Dispose st"]]
    closed.prems closed.IH
  show ?case by (auto simp: closeExecutor_def split: prod.splits sum.splits)
qed

lemma reachable_manager_node: "reachable env_ok manager_node"
proof -
  have "reachable env_ok (snd (initializeExecutor env_ok sandbox_a executorsManager))"
    by (rule reachable.initialized) (rule reachable.start)
  then have "reachable env_ok manager_a"
    by (simp add: initializeExecutor_env_ok_a)
  then have "reachable env_ok (snd (initializeExecutor env_ok sandbox_node manager_a))"
    by (rule reachable.initialized)
  then show ?thesis
    by (simp add: initializeExecutor_env_ok_node)
qed

text \<open>
  C5: \<open>isServer\<close> is true exactly when the manager holds an executor that is an
  instance of the class selected for server templates, and false when it holds none.
  In every state the manager can reach, that executor is one that
  \<open>new ServerExecutor()\<close> constructed.
\<close>

theorem isServer_iff:
  "(isServer st \<longleftrightarrow> (\<exists>e. getExecutor st = Some e \<and> instanceof e (getExecutorType True))) \<and>
   (getExecutor st = None \<longrightarrow> \<not> isServer st) \<and>
   (reachable env st \<longrightarrow>
      (isServer st \<longleftrightarrow>
         (\<exists>e. getExecutor st = Some e \<and> class_of e = ServerExecutor \<and>
              (New e, Resolved) \<in> set (calls st))))"
proof (intro conjI impI)
  show "isServer st \<longleftrightarrow> (\<exists>e. getExecutor st = Some e \<and> instanceof e (getExecutorType True))"
    by (simp add: isServer_def getExecutor_def getExecutorType_def split: option.split)
next
  assume "getExecutor st = None"
  then show "\<not> isServer st"
    by (simp add: isServer_def getExecutor_def)
next
  assume "reachable env st"
  then have "\<And>e. executor st = Some e \<Longrightarrow> (New e, Resolved) \<in> set (calls st)"
    by (rule reachable_constructed)
  then show "isServer st \<longleftrightarrow>
      (\<exists>e. getExecutor st = Some e \<and> class_of e = ServerExecutor \<and>
           (New e, Resolved) \<in> set (calls st))"
    by (auto simp: isServer_def getExecutor_def instanceof_def split: option.splits)
qed

theorem isServer_iff_witness:
  "reachable env_ok manager_node \<and> isServer manager_node \<and>
   getExecutor manager_node = Some (Executor ServerExecutor 1) \<and>
   (New (Executor ServerExecutor 1), Resolved) \<in> set (calls manager_node) \<and>
   getExecutor executorsManager = None \<and> \<not> isServer executorsManager \<and>
   reachable env_ok manager_a \<and> \<not> isServer manager_a"
proof -
  have a: "reachable env_ok manager_a"
    using reachable.initialized [OF reachable.start, of env_ok sandbox_a]
    by (simp add: initializeExecutor_env_ok_a)
  have none: "getExecutor executorsManager = None"
    by (simp add: getExecutor_def executorsManager_def)
  have node: "getExecutor manager_node = Some (Executor ServerExecutor 1)"
    by (simp add: getExecutor_def manager_node_def)
  have "instanceof (Executor ServerExecutor 1) (getExecutorType True)"
    by (simp add: instanceof_def getExecutorType_def)
  with node isServer_iff [of manager_node env_ok] have "isServer manager_node"
    by blast
  moreover from isServer_iff [of executorsManager env_ok] none
  have "\<not> isServer executorsManager" by blast
  moreover from isServer_iff [of manager_a env_ok] a
  have "\<not> isServer manager_a"
    by (auto simp: getExecutor_def manager_a_def)
  moreover have "(New (Executor ServerExecutor 1), Resolved) \<in> set (calls manager_node)"
    by (simp add: manager_node_def)
  ultimately show ?thesis
    using reachable_manager_node a none node by simp
qed

text \<open>
  C6: a \<open>closeExecutor\<close> that succeeds has called \<open>dispose\<close> on the executor the
  manager held, that call resolved, and the manager holds none afterwards, so
  \<open>getExecutor\<close> returns \<open>undefined\<close>.
\<close>

theorem closeExecutor_clears:
  assumes "closeExecutor env st = (Inr u, st')"
  shows "getExecutor st' = None \<and>
         (\<exists>e. getExecutor st = Some e \<and>
              st' = st\<lparr>calls := calls st @ [(Dispose e, Resolved)], executor := None\<rparr>)"
  using assms
  by (cases "executor st")
     (auto simp: closeExecutor_def getExecutor_def invoke_def perform_def Let_def
        split: outcome.splits)

theorem closeExecutor_clears_witness:
  "closeExecutor env_ok manager_a =
     (Inr (), manager_a\<lparr>calls := calls manager_a @
                [(Dispose (Executor SandboxExecutor 0), Resolved)], executor := None\<rparr>) \<and>
   getExecutor (manager_a\<lparr>calls := calls manager_a @
                [(Dispose (Executor SandboxExecutor 0), Resolved)], executor := None\<rparr>) = None"
proof -
  have run: "closeExecutor env_ok manager_a =
     (Inr (), manager_a\<lparr>calls := calls manager_a @
                [(Dispose (Executor SandboxExecutor 0), Resolved)], executor := None\<rparr>)"
    by (simp add: closeExecutor_def invoke_def perform_def Let_def env_ok_def manager_a_def)
  from closeExecutor_clears [OF run] run show ?thesis by simp
qed

text \<open>
  C8: with no executor in the manager, \<open>setupExecutor\<close>, \<open>updateFiles\<close> and
  \<open>closeExecutor\<close> each fail with the \<open>TypeError\<close> of reading a property of
  \<open>undefined\<close>; no call reaches an executor and the manager is unchanged.
\<close>

theorem no_executor_TypeError:
  assumes "getExecutor st = None"
  shows "setupExecutor env st = (Inl TypeError, st) \<and>
         updateFiles env sb st = (Inl TypeError, st) \<and>
         closeExecutor env st = (Inl TypeError, st)"
  using assms
  by (simp add: setupExecutor_def updateFiles_def closeExecutor_def getExecutor_def
        invoke_def Let_def)

theorem no_executor_TypeError_witness:
  "getExecutor executorsManager = None \<and>
   setupExecutor env_ok executorsManager = (Inl TypeError, executorsManager) \<and>
   updateFiles env_ok sandbox_a executorsManager = (Inl TypeError, executorsManager) \<and>
   closeExecutor env_ok executorsManager = (Inl TypeError, executorsManager)"
proof -
  have none: "getExecutor executorsManager = None"
    by (simp add: getExecutor_def executorsManager_def)
  from no_executor_TypeError [OF none] none show ?thesis by simp
qed

text \<open>
  C9: \<open>updateFiles\<close> keeps the executor the manager holds, disposes nothing and
  constructs nothing; called twice with the same sandbox while an executor is held,
  it makes two \<open>updateFiles\<close> calls on that executor, both with the same snapshot,
  and changes nothing else.
\<close>

theorem updateFiles_twice:
  "getExecutor (snd (updateFiles env sb st)) = getExecutor st \<and>
   disposed (calls_since st (snd (updateFiles env sb st))) = [] \<and>
   constructed (calls_since st (snd (updateFiles env sb st))) = [] \<and>
   (\<forall>e. getExecutor st = Some e \<longrightarrow>
      (\<exists>o1 o2. snd (updateFiles env sb (snd (updateFiles env sb st))) =
         st\<lparr>calls := calls st @
           [(UpdateFiles e (getModulesToSend (generateFileFromSandbox env) sb), o1),
            (UpdateFiles e (getModulesToSend (generateFileFromSandbox env) sb), o2)]\<rparr>))"
  by (cases "executor st")
     (auto simp: updateFiles_def getExecutor_def invoke_def perform_def Let_def
        calls_since_def disposed_def constructed_def split: outcome.splits)

theorem updateFiles_twice_witness:
  "getExecutor manager_a = Some (Executor SandboxExecutor 0) \<and>
   snd (updateFiles env_ok sandbox_a (snd (updateFiles env_ok sandbox_a manager_a))) =
     manager_a\<lparr>calls := calls manager_a @
       [(UpdateFiles (Executor SandboxExecutor 0) (getModulesToSend gen0 sandbox_a), Resolved),
        (UpdateFiles (Executor SandboxExecutor 0) (getModulesToSend gen0 sandbox_a), Resolved)]\<rparr>"
proof -
  have held: "getExecutor manager_a = Some (Executor SandboxExecutor 0)"
    by (simp add: getExecutor_def manager_a_def)
  have gen: "generateFileFromSandbox env_ok = gen0"
    by (simp add: env_ok_def)
  from updateFiles_twice [of env_ok sandbox_a manager_a] held
  obtain o1 o2 where run:
    "snd (updateFiles env_ok sandbox_a (snd (updateFiles env_ok sandbox_a manager_a))) =
       manager_a\<lparr>calls := calls manager_a @
         [(UpdateFiles (Executor SandboxExecutor 0) (getModulesToSend gen0 sandbox_a), o1),
          (UpdateFiles (Executor SandboxExecutor 0) (getModulesToSend gen0 sandbox_a), o2)]\<rparr>"
    unfolding gen by blast
  have "calls (snd (updateFiles env_ok sandbox_a (snd (updateFiles env_ok sandbox_a manager_a)))) =
     calls manager_a @
       [(UpdateFiles (Executor SandboxExecutor 0) (getModulesToSend gen0 sandbox_a), Resolved),
        (UpdateFiles (Executor SandboxExecutor 0) (getModulesToSend gen0 sandbox_a), Resolved)]"
    by (simp add: updateFiles_def invoke_def perform_def Let_def env_ok_def manager_a_def)
  with run have "o1 = Resolved" "o2 = Resolved" by simp_all
  with run held show ?thesis by simp
qed

end
